theory Spec2Isabelle
  imports Main "HOL-Library.Sublist"
begin

section \<open>Python strings\<close>

text \<open>
  The module is Python 2. Item names reach \<open>parse_item_name\<close> as \<open>unicode\<close> objects
  (\<open>list_items\<close> decodes them from UTF-8), so a string is modelled as the list of its
  code points. Isabelle's \<open>char\<close> has only 256 values; the trade-mark sign of
  \<open>StatTrak\<close> is code point 8482 and must be representable.
\<close>

type_synonym ustring = "nat list"

definition ustr :: "string \<Rightarrow> ustring" where
  "ustr s = map of_char s"

text \<open>
  \<open>unicode.isspace\<close> of CPython 2.7 on the code points up to 256: the ASCII table
  (\<open>0x09..0x0D\<close>, \<open>0x1C..0x1F\<close>, \<open>0x20\<close>) and \<open>U+0085\<close>, \<open>U+00A0\<close>. Larger code points
  never reach it: the parser filters them out first.
\<close>

definition py_isspace :: "nat \<Rightarrow> bool" where
  "py_isspace c \<longleftrightarrow> (9 \<le> c \<and> c \<le> 13) \<or> (28 \<le> c \<and> c \<le> 32) \<or> c = 133 \<or> c = 160"

text \<open>\<open>s.strip()\<close>: leading and trailing whitespace removed.\<close>

definition py_strip :: "ustring \<Rightarrow> ustring" where
  "py_strip s = rev (dropWhile py_isspace (rev (dropWhile py_isspace s)))"

text \<open>
  \<open>unicode.lower\<close> on one code point up to 256: the simple lower-case mapping of the
  Unicode database (\<open>A..Z\<close>, the Latin-1 capitals except the multiplication sign, and
  \<open>U+0100\<close>, whose lower case is \<open>U+0101\<close>).
\<close>

definition lower_cp :: "nat \<Rightarrow> nat" where
  "lower_cp c =
     (if 65 \<le> c \<and> c \<le> 90 then c + 32
      else if 192 \<le> c \<and> c \<le> 222 \<and> c \<noteq> 215 then c + 32
      else if c = 256 then 257
      else c)"

definition py_lower :: "ustring \<Rightarrow> ustring" where
  "py_lower s = map lower_cp s"

text \<open>\<open>s.startswith(p)\<close>.\<close>

definition py_startswith :: "ustring \<Rightarrow> ustring \<Rightarrow> bool" where
  "py_startswith s p = prefix p s"

text \<open>
  \<open>s.partition(sep)\<close> restricted to what the splitting functions need: the text before
  and after the first (leftmost) occurrence of \<open>sep\<close>, or \<open>None\<close> when \<open>sep\<close> does not
  occur.
\<close>

fun py_partition :: "ustring \<Rightarrow> ustring \<Rightarrow> (ustring \<times> ustring) option" where
  "py_partition sep [] = (if sep = [] then Some ([], []) else None)"
| "py_partition sep (c # cs) =
     (if prefix sep (c # cs) then Some ([], drop (length sep) (c # cs))
      else (case py_partition sep cs of
              None \<Rightarrow> None
            | Some (b, a) \<Rightarrow> Some (c # b, a)))"

text \<open>\<open>sub in s\<close> for strings.\<close>

definition py_contains :: "ustring \<Rightarrow> ustring \<Rightarrow> bool" where
  "py_contains sub s \<longleftrightarrow> py_partition sub s \<noteq> None"

text \<open>
  \<open>s.split(sep, maxsplit)\<close>: at most \<open>maxsplit\<close> splits, at the leftmost occurrences.
  Every call site passes a non-empty literal separator (Python raises on an empty one).
\<close>

fun py_splitn :: "ustring \<Rightarrow> nat \<Rightarrow> ustring \<Rightarrow> ustring list" where
  "py_splitn sep 0 s = [s]"
| "py_splitn sep (Suc n) s =
     (case py_partition sep s of
        None \<Rightarrow> [s]
      | Some (b, a) \<Rightarrow> b # py_splitn sep n a)"

lemma py_partition_shorter:
  "py_partition sep s = Some (b, a) \<Longrightarrow> sep \<noteq> [] \<Longrightarrow> length a < length s"
proof (induction s arbitrary: b)
  case Nil
  then show ?case by simp
next
  case (Cons c cs)
  show ?case
  proof (cases "prefix sep (c # cs)")
    case True
    with Cons.prems show ?thesis by (cases sep) auto
  next
    case False
    with Cons.prems obtain b' where "py_partition sep cs = Some (b', a)"
      by (auto split: option.splits)
    with Cons.IH Cons.prems(2) show ?thesis by fastforce
  qed
qed

text \<open>
  \<open>s.split(sep)\<close> without a limit: split at every occurrence, leftmost first and not
  overlapping. Python raises \<open>ValueError\<close> on an empty separator; no call site passes
  one, and the model returns the string unsplit there.
\<close>

function py_split :: "ustring \<Rightarrow> ustring \<Rightarrow> ustring list" where
  "py_split sep s =
     (if sep = [] then [s]
      else (case py_partition sep s of
              None \<Rightarrow> [s]
            | Some (b, a) \<Rightarrow> b # py_split sep a))"
  by pat_completeness auto
termination
  by (relation "measure (\<lambda>(sep, s). length s)") (auto simp: py_partition_shorter)

declare py_split.simps [simp del]

text \<open>\<open>s.replace(old, "")\<close> for a one-character \<open>old\<close>: every occurrence removed.\<close>

definition py_remove_char :: "nat \<Rightarrow> ustring \<Rightarrow> ustring" where
  "py_remove_char c s = filter (\<lambda>x. x \<noteq> c) s"

section \<open>The item-name parser\<close>

text \<open>
  The exceptions the modelled code raises or meets. \<open>HTTPError\<close> is a subclass of
  \<open>RequestException\<close> in the \<open>requests\<close> library; \<open>OtherException\<close> stands for
  any exception an action raises that is neither.
\<close>

datatype error =
    TypeError
  | ValueError
  | RequestException
  | HTTPError
  | OtherException
  | SteamAPIError
  | InvalidInventoryException

text \<open>
  The six-tuple \<open>parse_item_name\<close> returns, with the names of the local variables it is
  built from: \<open>r_item\<close> is the category, \<open>r_skin\<close> the skin, \<open>r_wear\<close> the wear,
  \<open>r_stat\<close>, \<open>r_holo\<close> and \<open>r_mkit\<close> the StatTrak, holographic and music-kit flags.
\<close>

record item_name =
  r_item :: "ustring option"
  r_skin :: "ustring option"
  r_wear :: "ustring option"
  r_stat :: bool
  r_holo :: bool
  r_mkit :: bool

text \<open>\<open>x.lower().strip() or None\<close>.\<close>

definition or_none :: "ustring \<Rightarrow> ustring option" where
  "or_none x = (let y = py_strip (py_lower x) in if y = [] then None else Some y)"

text \<open>The \<open>return\<close> statement of \<open>parse_item_name\<close>.\<close>

definition result :: "ustring \<Rightarrow> ustring \<Rightarrow> ustring \<Rightarrow> bool \<Rightarrow> bool \<Rightarrow> bool \<Rightarrow> item_name" where
  "result item skin wear stat holo mkit =
     \<lparr>r_item = or_none item, r_skin = or_none skin, r_wear = or_none wear,
      r_stat = stat, r_holo = holo, r_mkit = mkit\<rparr>"

text \<open>\<open>a, b = xs\<close>: a list of any other length than two raises \<open>ValueError\<close>.\<close>

fun unpack2 :: "'a list \<Rightarrow> error + ('a \<times> 'a)" where
  "unpack2 [a, b] = Inr (a, b)"
| "unpack2 _ = Inl ValueError"

text \<open>\<open>filter(lambda i: ord(i) <= 256, name)\<close>.\<close>

definition strip_unicode :: "ustring \<Rightarrow> ustring" where
  "strip_unicode name = filter (\<lambda>i. i \<le> 256) name"

text \<open>
  The sticker branch. \<open>r_skin.replace("(holo)")\<close> passes one argument to a method
  that needs two, so reaching it raises \<open>TypeError\<close>, and \<open>r_holo = True\<close> below it never
  runs.
\<close>

definition parse_sticker :: "ustring \<Rightarrow> error + item_name" where
  "parse_sticker name =
     (let skin = last (py_splitn (ustr ''|'') 1 name) in
      if py_contains (ustr ''(holo)'') skin then Inl TypeError
      else if py_contains (ustr ''|'') skin then
        (case unpack2 (py_splitn (ustr ''|'') 1 skin) of
           Inl e \<Rightarrow> Inl e
         | Inr (skin', wear) \<Rightarrow> Inr (result (ustr ''sticker'') skin' wear False False False))
      else Inr (result (ustr ''sticker'') skin [] False False False))"

text \<open>
  The music-kit branch. It leaves \<open>parsed\<close> false, so the function logs a warning
  before it returns; the log entry is no part of the returned tuple and is not modelled.
\<close>

definition parse_music_kit :: "ustring \<Rightarrow> error + item_name" where
  "parse_music_kit name =
     Inr (result (ustr ''musickit'') (last (py_splitn (ustr ''|'') 1 name)) [] False False True)"

text \<open>
  The general branch, in the order of the source: \<open>start\<close> and \<open>end\<close>, then the StatTrak
  test, then skin and wear from a non-empty \<open>end\<close>.
\<close>

definition split_start_end :: "ustring \<Rightarrow> error + (ustring \<times> ustring option)" where
  "split_start_end name =
     (if py_contains (ustr ''|'') name then
        (case unpack2 (py_split (ustr '' | '') name) of
           Inl e \<Rightarrow> Inl e
         | Inr (start, end) \<Rightarrow> Inr (start, Some end))
      else Inr (name, None))"

definition stat_item :: "ustring \<Rightarrow> bool \<times> ustring" where
  "stat_item start =
     (if py_startswith (py_strip start) (ustr ''StatTrak'')
      then (True, last (py_splitn (ustr '' '') 2 start))
      else (False, py_strip start))"

definition skin_wear :: "ustring option \<Rightarrow> error + (ustring \<times> ustring)" where
  "skin_wear end =
     (case end of
        None \<Rightarrow> Inr ([], [])
      | Some e \<Rightarrow>
          if e = [] then Inr ([], [])
          else (case unpack2 (py_split (ustr ''('') e) of
                  Inl err \<Rightarrow> Inl err
                | Inr (skin, ext) \<Rightarrow> Inr (skin, py_remove_char 41 ext)))"

definition parse_general :: "ustring \<Rightarrow> error + item_name" where
  "parse_general name =
     (case split_start_end name of
        Inl e \<Rightarrow> Inl e
      | Inr (start, end) \<Rightarrow>
          (case stat_item start of
             (stat, item) \<Rightarrow>
               (case skin_wear end of
                  Inl e \<Rightarrow> Inl e
                | Inr (skin, wear) \<Rightarrow> Inr (result item skin wear stat False False))))"

definition parse_item_name :: "ustring \<Rightarrow> error + item_name" where
  "parse_item_name name0 =
     (let name = strip_unicode name0 in
      if py_startswith (py_strip name) (ustr ''Sticker'') then parse_sticker name
      else if py_startswith (py_strip name) (ustr ''Music Kit'') then parse_music_kit name
      else parse_general name)"

subsection \<open>Notions used to state what the parser does\<close>

text \<open>The text after the first space of a string (the empty string when it has none).\<close>

definition after_space :: "ustring \<Rightarrow> ustring" where
  "after_space s = tl (dropWhile (\<lambda>x. x \<noteq> 32) s)"

text \<open>
  The names the general branch parses without raising: those without a pipe, and those
  that split at \<open>" | "\<close> into exactly two parts whose second part is empty or holds
  exactly one opening parenthesis (code point 40).
\<close>

definition general_well_formed :: "ustring \<Rightarrow> bool" where
  "general_well_formed name \<longleftrightarrow>
     \<not> py_contains (ustr ''|'') name
     \<or> (case py_split (ustr '' | '') name of
           [start, end] \<Rightarrow> end = [] \<or> count_list end 40 = 1
         | _ \<Rightarrow> False)"

section \<open>The retrying requester\<close>

text \<open>
  A response of the \<open>requests\<close> library, as far as the module reads it: the status
  code, which \<open>raise_for_status\<close> inspects, and the body.
\<close>

record 'b response =
  status_code :: int
  body :: 'b

text \<open>\<open>r.raise_for_status()\<close>: \<open>HTTPError\<close> for a 4xx or 5xx status.\<close>

definition raise_for_status :: "'b response \<Rightarrow> error + unit" where
  "raise_for_status r =
     (if 400 \<le> status_code r \<and> status_code r < 600 then Inl HTTPError else Inr ())"

text \<open>
  What one call \<open>f(requests)\<close> does: it returns a response or raises. The network is
  outside the program, so an action is modelled by the outcome of each of its
  invocations, numbered from 0 in the order they happen.
\<close>

datatype 'b outcome = Returns "'b response" | Raises error

type_synonym 'b action = "nat \<Rightarrow> 'b outcome"

text \<open>
  The effects of \<open>retry_request\<close>: how often the action has been invoked, the
  arguments of the calls of \<open>time.sleep\<close> in order, and the number of calls of
  \<open>log.exception\<close>.
\<close>

record io =
  calls :: nat
  sleeps :: "nat list"
  logged :: nat

definition io0 :: io where
  "io0 = \<lparr>calls = 0, sleeps = [], logged = 0\<rparr>"

text \<open>The body of the \<open>try\<close>: one invocation, then the status check.\<close>

definition attempt :: "'b action \<Rightarrow> io \<Rightarrow> (error + 'b response) \<times> io" where
  "attempt f s =
     (let s' = s\<lparr>calls := Suc (calls s)\<rparr> in
      case f (calls s) of
        Raises e \<Rightarrow> (Inl e, s')
      | Returns r \<Rightarrow>
          (case raise_for_status r of
             Inl e \<Rightarrow> (Inl e, s')
           | Inr _ \<Rightarrow> (Inr r, s')))"

text \<open>\<open>except (RequestException, HTTPError)\<close>.\<close>

definition caught :: "error \<Rightarrow> bool" where
  "caught e \<longleftrightarrow> e = RequestException \<or> e = HTTPError"

text \<open>
  The \<open>for\<close> loop over \<open>range(count)\<close>, by recursion on the iterations left. The
  handler logs and sleeps after every caught failure, whether or not an iteration is
  left; an exception it does not catch leaves the function.
\<close>

fun retry_loop :: "'b action \<Rightarrow> nat \<Rightarrow> nat \<Rightarrow> io \<Rightarrow> (error + 'b response option) \<times> io" where
  "retry_loop f delay 0 s = (Inr None, s)"
| "retry_loop f delay (Suc n) s =
     (case attempt f s of
        (Inr r, s') \<Rightarrow> (Inr (Some r), s')
      | (Inl e, s') \<Rightarrow>
          if caught e
          then retry_loop f delay n (s'\<lparr>sleeps := sleeps s' @ [delay], logged := Suc (logged s')\<rparr>)
          else (Inl e, s'))"

text \<open>
  \<open>retry_request(f, count=1, delay=60)\<close>. \<open>range(count)\<close> is empty for
  \<open>count \<le> 0\<close>. The delay is a duration in seconds, a natural number here.
\<close>

definition retry_request ::
  "'b action \<Rightarrow> int \<Rightarrow> nat \<Rightarrow> io \<Rightarrow> (error + 'b response option) \<times> io" where
  "retry_request f count delay s = retry_loop f delay (nat count) s"

definition default_count :: int where
  "default_count = 1"

definition default_delay :: nat where
  "default_delay = 60"

section \<open>The market API object\<close>

text \<open>The attributes \<open>SteamMarketAPI.__init__\<close> sets (the constant headers left out).\<close>

record market_api =
  appid :: int
  key :: "string option"
  retries :: int

text \<open>\<open>SteamMarketAPI(appid, key=None, retries=5)\<close> with the defaults of the signature.\<close>

definition SteamMarketAPI :: "int \<Rightarrow> market_api" where
  "SteamMarketAPI app = \<lparr>appid = app, key = None, retries = 5\<rparr>"

text \<open>
  \<open>get_inventory\<close>. It calls \<open>retry_request\<close> with the action alone, so \<open>count\<close> and
  \<open>delay\<close> take the defaults of \<open>retry_request\<close>; \<open>self.retries\<close> is not read. A
  response that passed \<open>raise_for_status\<close> is truthy, so \<open>not r\<close> holds for \<open>None\<close>
  only. \<open>json\<close> stands for \<open>r.json()\<close> and \<open>success\<close> for the truth value of
  \<open>data.get("success")\<close>.
\<close>

definition get_inventory ::
  "market_api \<Rightarrow> ('b \<Rightarrow> error + 'd) \<Rightarrow> ('d \<Rightarrow> bool) \<Rightarrow> 'b action \<Rightarrow> io \<Rightarrow> (error + 'd) \<times> io" where
  "get_inventory self json success f s =
     (case retry_request f default_count default_delay s of
        (Inl e, s') \<Rightarrow> (Inl e, s')
      | (Inr None, s') \<Rightarrow> (Inl SteamAPIError, s')
      | (Inr (Some r), s') \<Rightarrow>
          (case json (body r) of
             Inl e \<Rightarrow> (Inl e, s')
           | Inr data \<Rightarrow>
               if \<not> success data then (Inl InvalidInventoryException, s')
               else (Inr data, s')))"

text \<open>Outcomes of one invocation, as \<open>retry_request\<close> sees them.\<close>

definition failed :: "'b outcome \<Rightarrow> bool" where
  "failed out =
     (case out of
        Raises e \<Rightarrow> caught e
      | Returns r \<Rightarrow> 400 \<le> status_code r \<and> status_code r < 600)"

definition succeeded :: "'b outcome \<Rightarrow> bool" where
  "succeeded out =
     (case out of
        Raises e \<Rightarrow> False
      | Returns r \<Rightarrow> \<not> (400 \<le> status_code r \<and> status_code r < 600))"

section \<open>Normalisation of the returned fields\<close>

lemma lower_cp_idem: "lower_cp (lower_cp c) = lower_cp c"
  by (simp add: lower_cp_def)

lemma set_py_strip: "set (py_strip s) \<subseteq> set s"
  unfolding py_strip_def
  by (metis set_rev set_dropWhileD subsetI)

text \<open>A string that neither starts nor ends with whitespace is left alone by \<open>strip\<close>.\<close>

lemma py_strip_fix:
  assumes "s = [] \<or> (\<not> py_isspace (hd s) \<and> \<not> py_isspace (last s))"
  shows "py_strip s = s"
proof (cases "s = []")
  case True
  then show ?thesis by (simp add: py_strip_def)
next
  case False
  with assms have h: "\<not> py_isspace (hd s)" and l: "\<not> py_isspace (last s)" by auto
  from False h have "dropWhile py_isspace s = s" by (cases s) auto
  moreover from False l have "dropWhile py_isspace (rev s) = rev s"
    by (cases "rev s") (auto simp: last_rev hd_rev)
  ultimately show ?thesis by (simp add: py_strip_def)
qed

lemma py_strip_ends:
  assumes "py_strip s \<noteq> []"
  shows "\<not> py_isspace (hd (py_strip s)) \<and> \<not> py_isspace (last (py_strip s))"
proof -
  define ys where "ys = dropWhile py_isspace s"
  define zs where "zs = dropWhile py_isspace (rev ys)"
  have strip: "py_strip s = rev zs" by (simp add: py_strip_def ys_def zs_def)
  with assms have zs: "zs \<noteq> []" by simp
  then have ys: "ys \<noteq> []" by (auto simp: zs_def)
  have "\<not> py_isspace (hd zs)" using zs unfolding zs_def by (rule hd_dropWhile)
  moreover have "last zs = last (rev ys)"
    using zs unfolding zs_def by (metis dropWhile_last dropWhile_eq_Nil_conv)
  then have "last zs = hd ys" using ys by (simp add: last_rev)
  moreover have "\<not> py_isspace (hd ys)" using ys unfolding ys_def by (rule hd_dropWhile)
  ultimately show ?thesis using zs by (simp add: strip hd_rev last_rev)
qed

lemma py_strip_idem: "py_strip (py_strip s) = py_strip s"
  using py_strip_ends [of s] by (intro py_strip_fix) blast

lemma or_none_Some:
  assumes "or_none x = Some y"
  shows "y \<noteq> [] \<and> py_lower y = y \<and> py_strip y = y"
proof -
  from assms have y: "y = py_strip (py_lower x)" and ne: "y \<noteq> []"
    by (auto simp: or_none_def Let_def split: if_splits)
  have "set y \<subseteq> lower_cp ` set x"
    using set_py_strip [of "py_lower x"] by (simp add: y py_lower_def)
  then have "\<forall>c\<in>set y. lower_cp c = c" by (auto simp: lower_cp_idem)
  then have "py_lower y = y" by (simp add: py_lower_def map_idI)
  moreover have "py_strip y = y" by (simp add: y py_strip_idem)
  ultimately show ?thesis using ne by simp
qed

lemma or_none_Nil: "or_none [] = None"
  by (simp add: or_none_def py_lower_def py_strip_def)

lemma or_none_sticker: "or_none (ustr ''sticker'') = Some (ustr ''sticker'')"
  by code_simp

lemma or_none_musickit: "or_none (ustr ''musickit'') = Some (ustr ''musickit'')"
  by code_simp

text \<open>Every value the parser returns comes from its \<open>return\<close> statement, in one of three shapes.\<close>

lemma parse_sticker_cases:
  "parse_sticker name = Inr r \<Longrightarrow>
     \<exists>skin wear. r = result (ustr ''sticker'') skin wear False False False"
  by (auto simp: parse_sticker_def Let_def split: if_splits sum.splits)

lemma parse_general_cases:
  "parse_general name = Inr r \<Longrightarrow> \<exists>item skin wear stat. r = result item skin wear stat False False"
  by (auto simp: parse_general_def split: sum.splits prod.splits)

lemma parse_item_name_cases:
  assumes "parse_item_name name0 = Inr r"
  shows "(\<exists>skin wear. r = result (ustr ''sticker'') skin wear False False False)
       \<or> (\<exists>skin. r = result (ustr ''musickit'') skin [] False False True)
       \<or> (\<exists>item skin wear stat. r = result item skin wear stat False False)"
  using assms parse_sticker_cases parse_general_cases
  unfolding parse_item_name_def Let_def parse_music_kit_def
  by (auto split: if_splits)

text \<open>
  Claim C9. Whenever \<open>parse_item_name\<close> returns, each of category, skin and wear is
  either absent or a non-empty string that lower-casing and trimming leave unchanged;
  the empty string is never returned.
\<close>

theorem parse_item_name_fields_normalised:
  assumes "parse_item_name name0 = Inr r"
  shows "(\<forall>s. r_item r = Some s \<longrightarrow> s \<noteq> [] \<and> py_lower s = s \<and> py_strip s = s)
       \<and> (\<forall>s. r_skin r = Some s \<longrightarrow> s \<noteq> [] \<and> py_lower s = s \<and> py_strip s = s)
       \<and> (\<forall>s. r_wear r = Some s \<longrightarrow> s \<noteq> [] \<and> py_lower s = s \<and> py_strip s = s)"
proof -
  from parse_item_name_cases [OF assms]
  obtain item skin wear stat holo mkit where "r = result item skin wear stat holo mkit"
    by blast
  then have "r_item r = or_none item" "r_skin r = or_none skin" "r_wear r = or_none wear"
    by (simp_all add: result_def)
  then show ?thesis using or_none_Some by metis
qed

theorem parse_item_name_fields_normalised_witness:
  "parse_item_name (ustr ''AK-47 | Redline (Field-Tested)'') =
     Inr \<lparr>r_item = Some (ustr ''ak-47''), r_skin = Some (ustr ''redline''),
          r_wear = Some (ustr ''field-tested''), r_stat = False, r_holo = False, r_mkit = False\<rparr>
   \<and> ustr ''ak-47'' \<noteq> [] \<and> py_lower (ustr ''ak-47'') = ustr ''ak-47''
   \<and> py_strip (ustr ''ak-47'') = ustr ''ak-47''
   \<and> py_lower (ustr ''redline'') = ustr ''redline''
   \<and> py_strip (ustr ''redline'') = ustr ''redline''
   \<and> py_lower (ustr ''field-tested'') = ustr ''field-tested''
   \<and> py_strip (ustr ''field-tested'') = ustr ''field-tested''"
proof -
  have h: "parse_item_name (ustr ''AK-47 | Redline (Field-Tested)'') =
     Inr \<lparr>r_item = Some (ustr ''ak-47''), r_skin = Some (ustr ''redline''),
          r_wear = Some (ustr ''field-tested''), r_stat = False, r_holo = False, r_mkit = False\<rparr>"
    by code_simp
  from parse_item_name_fields_normalised [OF h] h show ?thesis by simp
qed

text \<open>
  Claim C10. Whenever \<open>parse_item_name\<close> returns, at most one of the three flags is
  set; a set music-kit flag comes with the category \<open>musickit\<close> and no wear; a set
  holographic flag comes with the category \<open>sticker\<close>. The last holds because the
  holographic flag is never set on a returned value, which the theorem states too.
\<close>

theorem parse_item_name_flags:
  assumes "parse_item_name name0 = Inr r"
  shows "\<not> (r_stat r \<and> r_holo r) \<and> \<not> (r_stat r \<and> r_mkit r) \<and> \<not> (r_holo r \<and> r_mkit r)
       \<and> (r_mkit r \<longrightarrow> r_item r = Some (ustr ''musickit'') \<and> r_wear r = None)
       \<and> (r_holo r \<longrightarrow> r_item r = Some (ustr ''sticker''))
       \<and> \<not> r_holo r"
  using parse_item_name_cases [OF assms]
  by (auto simp: result_def or_none_musickit or_none_Nil)

theorem parse_item_name_flags_witness:
  "parse_item_name (ustr ''Music Kit | Bob, Rockets'') =
     Inr \<lparr>r_item = Some (ustr ''musickit''), r_skin = Some (ustr ''bob, rockets''),
          r_wear = None, r_stat = False, r_holo = False, r_mkit = True\<rparr>
   \<and> or_none (ustr ''musickit'') = Some (ustr ''musickit'')"
proof -
  have h: "parse_item_name (ustr ''Music Kit | Bob, Rockets'') =
     Inr \<lparr>r_item = Some (ustr ''musickit''), r_skin = Some (ustr ''bob, rockets''),
          r_wear = None, r_stat = False, r_holo = False, r_mkit = True\<rparr>"
    by code_simp
  from parse_item_name_flags [OF h] h show ?thesis by (simp add: or_none_musickit)
qed

section \<open>The retry loop\<close>

lemma attempt_failed:
  assumes "failed (f (calls s))"
  shows "\<exists>e. caught e \<and> attempt f s = (Inl e, s\<lparr>calls := Suc (calls s)\<rparr>)"
  using assms
  by (auto simp: failed_def attempt_def raise_for_status_def caught_def Let_def
      split: outcome.splits)

lemma attempt_succeeded:
  assumes "f (calls s) = Returns r" and "succeeded (f (calls s))"
  shows "attempt f s = (Inr r, s\<lparr>calls := Suc (calls s)\<rparr>)"
  using assms
  by (auto simp: succeeded_def attempt_def raise_for_status_def Let_def)

text \<open>
  Through \<open>k\<close> failing invocations the loop makes \<open>k\<close> calls, \<open>k\<close> log entries and \<open>k\<close>
  sleeps, and goes on with the iterations that are left.
\<close>

lemma retry_loop_failures:
  assumes "\<forall>i<k. failed (f (calls s + i))"
  shows "retry_loop f d (k + m) s =
         retry_loop f d m
           (s\<lparr>calls := calls s + k, sleeps := sleeps s @ replicate k d, logged := logged s + k\<rparr>)"
  using assms
proof (induction k arbitrary: s)
  case 0
  then show ?case by simp
next
  case (Suc k)
  from Suc.prems have "failed (f (calls s))" by force
  then obtain e where e: "caught e" "attempt f s = (Inl e, s\<lparr>calls := Suc (calls s)\<rparr>)"
    using attempt_failed by blast
  define s' where "s' = s\<lparr>calls := Suc (calls s), sleeps := sleeps s @ [d], logged := Suc (logged s)\<rparr>"
  have step: "retry_loop f d (Suc k + m) s = retry_loop f d (k + m) s'"
    using e by (simp add: s'_def)
  have "\<forall>i<k. failed (f (calls s' + i))"
    using Suc.prems by (auto simp: s'_def)
  from Suc.IH [OF this] step show ?case
    by (simp add: s'_def replicate_app_Cons_same)
qed

lemma retry_loop_exhausted:
  assumes "\<forall>i. failed (f i)"
  shows "retry_loop f d n io0 = (Inr None, \<lparr>calls = n, sleeps = replicate n d, logged = n\<rparr>)"
  using retry_loop_failures [of n f io0 d 0] assms
  by (simp add: io0_def)

text \<open>
  Claim C7. For an action that fails on every invocation and \<open>N \<ge> 1\<close> attempts,
  \<open>retry_request\<close> returns \<open>None\<close>, raising nothing, after exactly \<open>N\<close> invocations of the
  action.
\<close>

theorem retry_request_exhaustion:
  assumes "\<forall>i. failed (f i)" and "1 \<le> N"
  shows "fst (retry_request f N d io0) = Inr None
       \<and> int (calls (snd (retry_request f N d io0))) = N"
  using assms by (simp add: retry_request_def retry_loop_exhausted)

theorem retry_request_exhaustion_witness:
  "(1::int) \<le> 5
   \<and> fst (retry_request (\<lambda>i. Raises RequestException :: unit outcome) 5 60 io0) = Inr None
   \<and> int (calls (snd (retry_request (\<lambda>i. Raises RequestException :: unit outcome) 5 60 io0))) = 5"
proof -
  have h: "\<forall>i. failed ((\<lambda>i. Raises RequestException :: unit outcome) i)"
    by (simp add: failed_def caught_def)
  have n: "(1::int) \<le> 5" by simp
  from retry_request_exhaustion [OF h n, of 60] show ?thesis by simp
qed

text \<open>
  Claim C6, as amended. When every attempt fails, every failed attempt, the last
  allowed one too, is followed by a sleep of \<open>delay\<close> seconds: a run with \<open>N\<close> attempts
  performs exactly \<open>N\<close> sleeps before it returns \<open>None\<close>.
\<close>

theorem retry_request_sleeps_after_every_failure:
  assumes "\<forall>i. failed (f i)"
  shows "fst (retry_request f N d io0) = Inr None
       \<and> sleeps (snd (retry_request f N d io0)) = replicate (nat N) d"
  using assms by (simp add: retry_request_def retry_loop_exhausted)

theorem retry_request_sleeps_after_every_failure_witness:
  "fst (retry_request (\<lambda>i. Raises HTTPError :: unit outcome) 2 60 io0) = Inr None
   \<and> sleeps (snd (retry_request (\<lambda>i. Raises HTTPError :: unit outcome) 2 60 io0)) = [60, 60]"
proof -
  have h: "\<forall>i. failed ((\<lambda>i. Raises HTTPError :: unit outcome) i)"
    by (simp add: failed_def caught_def)
  from retry_request_sleeps_after_every_failure [OF h, of 2 60] show ?thesis
    by (simp add: numeral_2_eq_2)
qed

text \<open>
  The claim as stated fails: three failing attempts are followed by three sleeps, not
  two.
\<close>

theorem retry_request_sleeps_counterexample:
  "fst (retry_request (\<lambda>i. Raises RequestException :: unit outcome) 3 60 io0) = Inr None
   \<and> sleeps (snd (retry_request (\<lambda>i. Raises RequestException :: unit outcome) 3 60 io0))
       = [60, 60, 60]
   \<and> length (sleeps (snd (retry_request (\<lambda>i. Raises RequestException :: unit outcome) 3 60 io0)))
       \<noteq> 3 - 1"
  by (simp add: retry_request_def numeral_3_eq_3 attempt_def caught_def io0_def)

text \<open>
  Claim C8. When the \<open>k\<close>-th invocation is the first to succeed (the earlier ones
  fail) and \<open>k\<close> is within the allowed attempts, \<open>retry_request\<close> returns that response
  and the action has been invoked exactly \<open>k\<close> times, with a sleep after each of the
  \<open>k - 1\<close> failures.
\<close>

theorem retry_request_first_success:
  assumes "1 \<le> k" and "int k \<le> N"
    and "\<forall>i<k - 1. failed (f i)"
    and "f (k - 1) = Returns r" and "succeeded (f (k - 1))"
  shows "retry_request f N d io0 =
         (Inr (Some r), \<lparr>calls = k, sleeps = replicate (k - 1) d, logged = k - 1\<rparr>)"
proof -
  define m where "m = nat N - k"
  from assms(1,2) have N: "nat N = (k - 1) + Suc m"
    unfolding m_def by linarith
  define s where "s = \<lparr>calls = k - 1, sleeps = replicate (k - 1) d, logged = k - 1\<rparr>"
  have "retry_loop f d (nat N) io0 = retry_loop f d (Suc m) s"
    unfolding N using retry_loop_failures [of "k - 1" f io0 d "Suc m"] assms(3)
    by (simp add: io0_def s_def)
  moreover have "attempt f s = (Inr r, s\<lparr>calls := Suc (calls s)\<rparr>)"
    using assms(4,5) by (intro attempt_succeeded) (simp_all add: s_def)
  ultimately show ?thesis using assms(1)
    by (simp add: retry_request_def s_def)
qed

theorem retry_request_first_success_witness:
  "retry_request
     (\<lambda>i. if i < 2 then Raises RequestException else Returns \<lparr>status_code = 200, body = ()\<rparr>)
     3 60 io0 =
   (Inr (Some \<lparr>status_code = 200, body = ()\<rparr>), \<lparr>calls = 3, sleeps = [60, 60], logged = 2\<rparr>)"
proof -
  define f :: "unit action" where
    "f = (\<lambda>i. if i < 2 then Raises RequestException else Returns \<lparr>status_code = 200, body = ()\<rparr>)"
  have a: "(1::nat) \<le> 3" and b: "int 3 \<le> 3" by simp_all
  have c: "\<forall>i<3 - 1. failed (f i)" by (simp add: f_def failed_def caught_def)
  have d: "f (3 - 1) = Returns \<lparr>status_code = 200, body = ()\<rparr>" by (simp add: f_def)
  have e: "succeeded (f (3 - 1))" by (simp add: f_def succeeded_def)
  from retry_request_first_success [OF a b c d e, of 60] show ?thesis
    by (simp add: f_def numeral_2_eq_2)
qed

text \<open>
  Claim C5. The market object is built with \<open>retries = 5\<close>, yet a request made through
  it is attempted once: \<open>get_inventory\<close> on a transport that always fails invokes the
  action a single time, sleeps once and raises \<open>SteamAPIError\<close>.
\<close>

theorem get_inventory_single_attempt:
  "retries (SteamMarketAPI 730) = 5
   \<and> get_inventory (SteamMarketAPI 730) (Inr :: bool \<Rightarrow> error + bool) (\<lambda>d. d)
        (\<lambda>i. Raises RequestException) io0
      = (Inl SteamAPIError, \<lparr>calls = 1, sleeps = [60], logged = 1\<rparr>)"
  by (simp add: SteamMarketAPI_def get_inventory_def retry_request_def default_count_def
      default_delay_def attempt_def caught_def io0_def)

section \<open>When the parser returns and what it returns\<close>

lemma ustr_single: "ustr ''|'' = [124]" "ustr '' '' = [32]" "ustr ''('' = [40]"
  by (simp_all add: ustr_def)

lemma py_partition_single:
  "py_partition [c] s =
     (if c \<in> set s then Some (takeWhile (\<lambda>x. x \<noteq> c) s, tl (dropWhile (\<lambda>x. x \<noteq> c) s))
      else None)"
  by (induction s) auto

lemma count_list_after:
  "c \<in> set s \<Longrightarrow> count_list s c = Suc (count_list (tl (dropWhile (\<lambda>x. x \<noteq> c) s)) c)"
  by (induction s) auto

lemma length_py_split_single: "length (py_split [c] s) = Suc (count_list s c)"
proof (induction "[c]" s rule: py_split.induct)
  case (1 s)
  show ?case
  proof (cases "c \<in> set s")
    case True
    then have p: "py_partition [c] s =
        Some (takeWhile (\<lambda>x. x \<noteq> c) s, tl (dropWhile (\<lambda>x. x \<noteq> c) s))"
      by (simp add: py_partition_single)
    from "1.hyps" [OF _ p refl] have "length (py_split [c] (tl (dropWhile (\<lambda>x. x \<noteq> c) s))) =
        Suc (count_list (tl (dropWhile (\<lambda>x. x \<noteq> c) s)) c)"
      by simp
    with True p show ?thesis
      by (subst py_split.simps) (simp add: count_list_after [of c s])
  next
    case False
    then show ?thesis
      by (subst py_split.simps) (simp add: py_partition_single count_list_0_iff)
  qed
qed

lemma unpack2_length: "length xs = 2 \<Longrightarrow> \<exists>a b. unpack2 xs = Inr (a, b)"
  by (cases xs rule: unpack2.cases) auto

lemma unpack2_not_length: "length xs \<noteq> 2 \<Longrightarrow> unpack2 xs = Inl ValueError"
  by (cases xs rule: unpack2.cases) auto

lemma py_splitn_1_contains:
  "py_contains sep s \<Longrightarrow> \<exists>b a. py_splitn sep 1 s = [b, a]"
  by (auto simp: py_contains_def)

lemma last_py_splitn_space:
  "last (py_splitn [32] 2 s) =
     (if 32 \<notin> set s then s
      else if 32 \<notin> set (after_space s) then after_space s
      else after_space (after_space s))"
  by (simp add: numeral_2_eq_2 py_partition_single after_space_def)

lemma unpack2_Inr_iff: "(\<exists>a b. unpack2 xs = Inr (a, b)) \<longleftrightarrow> length xs = 2"
  by (cases xs rule: unpack2.cases) auto

lemma unpack2_paren:
  "(\<exists>a b. unpack2 (py_split [40] e) = Inr (a, b)) \<longleftrightarrow> count_list e 40 = 1"
  by (simp add: unpack2_Inr_iff length_py_split_single)

lemma skin_wear_returns:
  "(\<exists>p. skin_wear end = Inr p) \<longleftrightarrow>
     (case end of None \<Rightarrow> True | Some e \<Rightarrow> e = [] \<or> count_list e 40 = 1)"
proof (cases "end")
  case None
  then show ?thesis by (simp add: skin_wear_def)
next
  case (Some e)
  show ?thesis
  proof (cases "e = []")
    case True
    with Some show ?thesis by (simp add: skin_wear_def)
  next
    case False
    have "(\<exists>p. skin_wear end = Inr p) \<longleftrightarrow> (\<exists>a b. unpack2 (py_split [40] e) = Inr (a, b))"
      using Some False by (auto simp: skin_wear_def ustr_single split: sum.splits)
    with Some False show ?thesis by (simp only: unpack2_paren option.case) simp
  qed
qed

lemma unpack2_error: "unpack2 xs = Inl e \<Longrightarrow> e = ValueError"
  by (cases xs rule: unpack2.cases) auto

lemma skin_wear_error: "skin_wear end = Inl e \<Longrightarrow> e = ValueError"
  by (auto simp: skin_wear_def split: option.splits sum.splits if_splits dest: unpack2_error)

lemma split_start_end_error: "split_start_end name = Inl e \<Longrightarrow> e = ValueError"
  by (auto simp: split_start_end_def split: sum.splits if_splits dest: unpack2_error)

lemma parse_general_error: "parse_general name = Inl e \<Longrightarrow> e = ValueError"
  by (auto simp: parse_general_def split: sum.splits prod.splits
      dest: skin_wear_error split_start_end_error)

lemma parse_general_returns:
  "(\<exists>r. parse_general name = Inr r) \<longleftrightarrow> general_well_formed name"
proof (cases "py_contains (ustr ''|'') name")
  case False
  then have "split_start_end name = Inr (name, None)" by (simp add: split_start_end_def)
  then have "\<exists>r. parse_general name = Inr r"
    by (simp add: parse_general_def skin_wear_def split: prod.splits)
  with False show ?thesis by (simp add: general_well_formed_def)
next
  case True
  show ?thesis
  proof (cases "length (py_split (ustr '' | '') name) = 2")
    case False
    then have "unpack2 (py_split (ustr '' | '') name) = Inl ValueError"
      by (rule unpack2_not_length)
    with True have "parse_general name = Inl ValueError"
      by (simp add: parse_general_def split_start_end_def)
    moreover from False have "\<not> general_well_formed name"
      using True by (auto simp: general_well_formed_def split: list.splits)
    ultimately show ?thesis by simp
  next
    case len: True
    then obtain start e where se: "py_split (ustr '' | '') name = [start, e]"
      by (auto simp: length_Suc_conv numeral_2_eq_2)
    with True have sse: "split_start_end name = Inr (start, Some e)"
      by (simp add: split_start_end_def)
    have "(\<exists>r. parse_general name = Inr r) \<longleftrightarrow> (\<exists>p. skin_wear (Some e) = Inr p)"
      using sse by (auto simp: parse_general_def split: prod.splits sum.splits)
    also have "\<dots> \<longleftrightarrow> e = [] \<or> count_list e 40 = 1"
      using skin_wear_returns [of "Some e"] by simp
    also have "\<dots> \<longleftrightarrow> general_well_formed name"
      using True se by (simp add: general_well_formed_def)
    finally show ?thesis .
  qed
qed

lemma parse_sticker_returns:
  assumes "\<not> py_contains (ustr ''(holo)'') (last (py_splitn (ustr ''|'') 1 name))"
  shows "\<exists>r. parse_sticker name = Inr r"
proof (cases "py_contains (ustr ''|'') (last (py_splitn (ustr ''|'') 1 name))")
  case True
  from py_splitn_1_contains [OF this] obtain b a
    where "py_splitn (ustr ''|'') 1 (last (py_splitn (ustr ''|'') 1 name)) = [b, a]" by blast
  with assms True show ?thesis by (simp add: parse_sticker_def Let_def)
next
  case False
  with assms show ?thesis by (simp add: parse_sticker_def Let_def)
qed

text \<open>
  Where the parser returns and where it raises. It returns for every Music Kit name,
  for every Sticker name whose text after the first pipe does not contain \<open>(holo)\<close>,
  and for every other name that has no pipe or splits at \<open>" | "\<close> into exactly two
  parts whose second is empty or holds exactly one \<open>(\<close>. On every other name that is
  neither a Sticker nor a Music Kit name an unpacking fails with \<open>ValueError\<close>, before
  the \<open>parsed\<close> test and its warning are reached.
\<close>

lemma parse_item_name_returns:
  assumes "name = strip_unicode name0"
  shows "(py_startswith (py_strip name) (ustr ''Sticker'')
            \<and> \<not> py_contains (ustr ''(holo)'') (last (py_splitn (ustr ''|'') 1 name))
          \<longrightarrow> (\<exists>r. parse_item_name name0 = Inr r))
       \<and> (\<not> py_startswith (py_strip name) (ustr ''Sticker'')
            \<and> py_startswith (py_strip name) (ustr ''Music Kit'')
          \<longrightarrow> (\<exists>r. parse_item_name name0 = Inr r))
       \<and> (\<not> py_startswith (py_strip name) (ustr ''Sticker'')
            \<and> \<not> py_startswith (py_strip name) (ustr ''Music Kit'')
            \<and> general_well_formed name
          \<longrightarrow> (\<exists>r. parse_item_name name0 = Inr r))
       \<and> (\<not> py_startswith (py_strip name) (ustr ''Sticker'')
            \<and> \<not> py_startswith (py_strip name) (ustr ''Music Kit'')
            \<and> \<not> general_well_formed name
          \<longrightarrow> parse_item_name name0 = Inl ValueError)"
proof -
  have general: "\<not> general_well_formed name \<Longrightarrow> parse_general name = Inl ValueError"
    using parse_general_returns [of name] parse_general_error [of name]
    by (cases "parse_general name") auto
  show ?thesis
    using parse_sticker_returns [of name] parse_general_returns [of name] general
    by (simp add: parse_item_name_def Let_def assms [symmetric] parse_music_kit_def)
qed

text \<open>
  Claim C1. The parser does not return for every input string. The general branch
  unpacks \<open>name.split(" | ")\<close> and \<open>end.split("(")\<close> into two variables each, guarded
  only by \<open>'|' in name\<close> and \<open>if end\<close>: a name with a skin and no wear, a name whose
  pipe has no spaces around it, and a name with two separators all raise \<open>ValueError\<close>
  where the claim promises absent fields.
\<close>

theorem parse_item_name_raises_value_error:
  "parse_item_name (ustr ''AK-47 | Redline'') = Inl ValueError
   \<and> parse_item_name (ustr ''AK-47|Redline (Factory New)'') = Inl ValueError
   \<and> parse_item_name (ustr ''Patch | Crazy Banana'') = Inl ValueError
   \<and> parse_item_name (ustr ''A | B | C'') = Inl ValueError"
  by code_simp

text \<open>
  What the StatTrak test computes. When \<open>start\<close> begins with \<open>StatTrak\<close> after trimming,
  the category is the normalised last piece of \<open>start.split(" ", 2)\<close>: all of \<open>start\<close>
  when it has no space, the text after its only space when it has one, and the text
  after its second space otherwise.
\<close>

lemma parse_item_name_stattrak_category:
  assumes "\<not> py_startswith (py_strip (strip_unicode name0)) (ustr ''Sticker'')"
    and "\<not> py_startswith (py_strip (strip_unicode name0)) (ustr ''Music Kit'')"
    and "split_start_end (strip_unicode name0) = Inr (start, end)"
    and "py_startswith (py_strip start) (ustr ''StatTrak'')"
    and "parse_item_name name0 = Inr r"
  shows "r_stat r
       \<and> r_item r = or_none (if 32 \<notin> set start then start
                              else if 32 \<notin> set (after_space start) then after_space start
                              else after_space (after_space start))"
proof -
  from assms(1,2,5) have g: "parse_general (strip_unicode name0) = Inr r"
    by (auto simp: parse_item_name_def Let_def)
  from assms(4) have st: "stat_item start = (True, last (py_splitn [32] 2 start))"
    by (simp add: stat_item_def ustr_single)
  from g assms(3) st obtain skin wear
    where r: "r = result (last (py_splitn [32] 2 start)) skin wear True False False"
    by (auto simp: parse_general_def split: sum.splits)
  have "r_stat r" by (simp add: r result_def)
  moreover have "r_item r = or_none (if 32 \<notin> set start then start
                              else if 32 \<notin> set (after_space start) then after_space start
                              else after_space (after_space start))"
    by (simp only: r result_def item_name.simps last_py_splitn_space)
  ultimately show ?thesis by simp
qed

text \<open>
  Claim C2. The StatTrak Desert Eagle does not get the category \<open>desert eagle\<close>:
  \<open>start.split(" ", 2)[-1]\<close> keeps the text after the second space, which is
  \<open>eagle\<close>. The same weapon without the StatTrak marker is parsed to
  \<open>desert eagle\<close>, and a StatTrak knife, whose name starts with a star that is
  stripped to a leading space, keeps both words of \<open>butterfly knife\<close>.
\<close>

theorem parse_item_name_stattrak_truncates:
  "parse_item_name (ustr ''StatTrak'' @ [8482] @ ustr '' Desert Eagle | Blaze (Factory New)'') =
     Inr \<lparr>r_item = Some (ustr ''eagle''), r_skin = Some (ustr ''blaze''),
          r_wear = Some (ustr ''factory new''), r_stat = True, r_holo = False, r_mkit = False\<rparr>
   \<and> ustr ''eagle'' \<noteq> ustr ''desert eagle''
   \<and> parse_item_name (ustr ''Desert Eagle | Blaze (Factory New)'') =
       Inr \<lparr>r_item = Some (ustr ''desert eagle''), r_skin = Some (ustr ''blaze''),
            r_wear = Some (ustr ''factory new''), r_stat = False, r_holo = False, r_mkit = False\<rparr>
   \<and> parse_item_name
         ([9733] @ ustr '' StatTrak'' @ [8482] @ ustr '' Butterfly Knife | Fade (Factory New)'') =
       Inr \<lparr>r_item = Some (ustr ''butterfly knife''), r_skin = Some (ustr ''fade''),
            r_wear = Some (ustr ''factory new''), r_stat = True, r_holo = False, r_mkit = False\<rparr>"
  by code_simp

text \<open>
  Claim C3, as amended. The sticker branch splits at pipes only, so
  \<open>Sticker | Crown (Foil)\<close> parses to the category \<open>sticker\<close>, the skin \<open>crown (foil)\<close>,
  no wear and a clear holographic flag.
\<close>

theorem parse_item_name_sticker_foil:
  "parse_item_name (ustr ''Sticker | Crown (Foil)'') =
     Inr \<lparr>r_item = Some (ustr ''sticker''), r_skin = Some (ustr ''crown (foil)''),
          r_wear = None, r_stat = False, r_holo = False, r_mkit = False\<rparr>"
  by code_simp

text \<open>The claim as stated fails: the skin is not \<open>crown\<close> and the wear is not \<open>foil\<close>.\<close>

theorem parse_item_name_sticker_foil_counterexample:
  "map_sum id r_skin (parse_item_name (ustr ''Sticker | Crown (Foil)'')) \<noteq> Inr (Some (ustr ''crown''))
   \<and> map_sum id r_wear (parse_item_name (ustr ''Sticker | Crown (Foil)'')) \<noteq> Inr (Some (ustr ''foil''))"
  by code_simp

text \<open>
  Every Sticker name whose text after the first pipe contains \<open>(holo)\<close> raises
  \<open>TypeError\<close>.
\<close>

lemma parse_item_name_holo_always_raises:
  assumes "py_startswith (py_strip (strip_unicode name0)) (ustr ''Sticker'')"
    and "py_contains (ustr ''(holo)'') (last (py_splitn (ustr ''|'') 1 (strip_unicode name0)))"
  shows "parse_item_name name0 = Inl TypeError"
  using assms by (simp add: parse_item_name_def parse_sticker_def Let_def)

text \<open>
  Claim C4. The holographic sticker of the claim does not parse: the call raises
  \<open>TypeError\<close> instead of returning the holographic flag and the skin \<open>howling dawn\<close>.
\<close>

theorem parse_item_name_holo_raises:
  "parse_item_name (ustr ''Sticker | Howling Dawn (holo)'') = Inl TypeError"
  by code_simp

end
